theory Spec2Isabelle
  imports Main "HOL-Library.Word"
begin

section \<open>JavaScript values and strings\<close>

text \<open>
  A JavaScript string is a sequence of UTF-16 code units, and \<open>length\<close>, \<open>split\<close>,
  \<open>includes\<close>, \<open>trim\<close> and the regular expressions of the source (none has the \<open>u\<close>
  flag) all work on code units. A code unit is a 16-bit word.
\<close>

type_synonym uchar = "16 word"
type_synonym jsstring = "uchar list"

definition str :: "string \<Rightarrow> jsstring" where
  "str s = map of_char s"

text \<open>
  The values that the persistent store can hand back and that the settings object can
  therefore hold: JSON values, and \<open>undefined\<close> for a key that is absent. A number is an
  integer here (the flags of the program are \<open>0\<close> and \<open>1\<close>); \<open>JNaN\<close> is what
  \<open>parseInt\<close> gives for a string without digits.
\<close>

datatype jsval =
    JUndefined
  | JNull
  | JBool bool
  | JNum int
  | JNaN
  | JStr jsstring
  | JArr "jsval list"
  | JObj "(string \<times> jsval) list"

text \<open>ToBoolean: what \<open>if (v)\<close>, \<open>!v\<close> and \<open>v ? a : b\<close> test.\<close>

fun truthy :: "jsval \<Rightarrow> bool" where
  "truthy JUndefined = False"
| "truthy JNull = False"
| "truthy (JBool b) = b"
| "truthy (JNum n) = (n \<noteq> 0)"
| "truthy JNaN = False"
| "truthy (JStr s) = (s \<noteq> [])"
| "truthy (JArr xs) = True"
| "truthy (JObj kvs) = True"

text \<open>The operator \<open>a ?? b\<close>: \<open>b\<close> exactly when \<open>a\<close> is \<open>null\<close> or \<open>undefined\<close>.\<close>

definition nullish :: "jsval \<Rightarrow> jsval \<Rightarrow> jsval" where
  "nullish a b = (if a = JUndefined \<or> a = JNull then b else a)"

text \<open>
  Reading a property \<open>v[k]\<close> for one of the key names of the program. On \<open>undefined\<close>
  and \<open>null\<close> the read throws a TypeError (\<open>None\<close>); an object gives the stored value or
  \<open>undefined\<close>; no other value has a property of one of these names.
\<close>

definition js_prop :: "(string \<times> jsval) list \<Rightarrow> string \<Rightarrow> jsval" where
  "js_prop kvs k = (case map_of kvs k of None \<Rightarrow> JUndefined | Some v \<Rightarrow> v)"

fun js_get :: "jsval \<Rightarrow> string \<Rightarrow> jsval option" where
  "js_get JUndefined k = None"
| "js_get JNull k = None"
| "js_get (JObj kvs) k = Some (js_prop kvs k)"
| "js_get v k = Some JUndefined"

subsection \<open>String methods\<close>

text \<open>\<open>s.split(sep)\<close> for a separator of one code unit: never an empty array.\<close>

fun js_split :: "uchar \<Rightarrow> jsstring \<Rightarrow> jsstring list" where
  "js_split sep [] = [[]]"
| "js_split sep (c # cs) =
     (if c = sep then [] # js_split sep cs
      else (case js_split sep cs of
              [] \<Rightarrow> [[c]]
            | p # ps \<Rightarrow> (c # p) # ps))"

text \<open>\<open>parts.join(sep)\<close>.\<close>

fun js_join :: "jsstring \<Rightarrow> jsstring list \<Rightarrow> jsstring" where
  "js_join sep [] = []"
| "js_join sep [p] = p"
| "js_join sep (p # q # ps) = p @ sep @ js_join sep (q # ps)"

fun startsWith :: "jsstring \<Rightarrow> jsstring \<Rightarrow> bool" where
  "startsWith s [] = True"
| "startsWith [] (n # ns) = False"
| "startsWith (c # cs) (n # ns) = (c = n \<and> startsWith cs ns)"

definition endsWith :: "jsstring \<Rightarrow> jsstring \<Rightarrow> bool" where
  "endsWith s n = startsWith (rev s) (rev n)"

fun js_includes :: "jsstring \<Rightarrow> jsstring \<Rightarrow> bool" where
  "js_includes [] n = (n = [])"
| "js_includes (c # cs) n = (startsWith (c # cs) n \<or> js_includes cs n)"

text \<open>
  The code units that \<open>trim\<close> strips: WhiteSpace (TAB, VT, FF, SP, NBSP, ZWNBSP and the
  space separators of Unicode) and LineTerminator (LF, CR, LS, PS).
\<close>

definition js_whitespace :: "uchar \<Rightarrow> bool" where
  "js_whitespace c =
     ((0x0009 \<le> c \<and> c \<le> 0x000D) \<or> c = 0x0020 \<or> c = 0x00A0 \<or> c = 0x1680
      \<or> (0x2000 \<le> c \<and> c \<le> 0x200A) \<or> c = 0x2028 \<or> c = 0x2029 \<or> c = 0x202F
      \<or> c = 0x205F \<or> c = 0x3000 \<or> c = 0xFEFF)"

definition trim :: "jsstring \<Rightarrow> jsstring" where
  "trim s = rev (dropWhile js_whitespace (rev (dropWhile js_whitespace s)))"

subsection \<open>Regular expressions\<close>

text \<open>
  The regular expressions of the source use character classes of ranges, grouping,
  \<open>?\<close>, \<open>*\<close>, \<open>+\<close> and counted repetition. \<open>test\<close> only asks whether some match exists, so
  the backtracking order of the engine does not matter and a regular expression is read
  as the set of strings it matches.
\<close>

datatype rx =
    Cls "(uchar \<times> uchar) list"
  | Eps
  | Alt rx rx
  | Seq rx rx
  | Star rx

text \<open>
  With the flag \<open>i\<close> (and without \<open>u\<close>) two code units match when their canonical forms
  agree, the canonical form being the upper-case code unit, except that a code unit from
  128 on is never mapped below 128. Every class of the program lies below 128, so a code
  unit is in a class when it or its ASCII case counterpart is.
\<close>

definition ascii_swapcase :: "uchar \<Rightarrow> uchar" where
  "ascii_swapcase c =
     (if 0x41 \<le> c \<and> c \<le> 0x5A then c + 0x20
      else if 0x61 \<le> c \<and> c \<le> 0x7A then c - 0x20
      else c)"

definition in_class :: "bool \<Rightarrow> (uchar \<times> uchar) list \<Rightarrow> uchar \<Rightarrow> bool" where
  "in_class ignoreCase rs c =
     list_ex (\<lambda>(lo, hi). (lo \<le> c \<and> c \<le> hi)
                \<or> (ignoreCase \<and> lo \<le> ascii_swapcase c \<and> ascii_swapcase c \<le> hi)) rs"

fun matches :: "bool \<Rightarrow> rx \<Rightarrow> jsstring \<Rightarrow> bool" where
  "matches ic (Cls rs) s = (case s of [c] \<Rightarrow> in_class ic rs c | _ \<Rightarrow> False)"
| "matches ic Eps s = (s = [])"
| "matches ic (Alt a b) s = (matches ic a s \<or> matches ic b s)"
| "matches ic (Seq a b) s =
     list_ex (\<lambda>i. matches ic a (take i s) \<and> matches ic b (drop i s)) [0..<Suc (length s)]"
| "matches ic (Star a) s =
     (s = [] \<or>
      list_ex (\<lambda>i. matches ic a (take i s) \<and> matches ic (Star a) (drop i s))
        [1..<Suc (length s)])"

text \<open>\<open>r?\<close>, \<open>r{0,n}\<close>, \<open>r{n,}\<close> and \<open>r+\<close>.\<close>

definition Opt :: "rx \<Rightarrow> rx" where
  "Opt r = Alt Eps r"

primrec UpTo :: "nat \<Rightarrow> rx \<Rightarrow> rx" where
  "UpTo 0 r = Eps"
| "UpTo (Suc n) r = Opt (Seq r (UpTo n r))"

primrec AtLeast :: "nat \<Rightarrow> rx \<Rightarrow> rx" where
  "AtLeast 0 r = Star r"
| "AtLeast (Suc n) r = Seq r (AtLeast n r)"

text \<open>
  \<open>/^r$/.test(s)\<close> (no flag \<open>m\<close>: the anchors are the two ends of the string) and
  \<open>/r/.test(s)\<close>, which looks for a match anywhere in the string.
\<close>

definition test_anchored :: "bool \<Rightarrow> rx \<Rightarrow> jsstring \<Rightarrow> bool" where
  "test_anchored ic r s = matches ic r s"

definition test_anywhere :: "bool \<Rightarrow> rx \<Rightarrow> jsstring \<Rightarrow> bool" where
  "test_anywhere ic r s =
     list_ex (\<lambda>i. list_ex (\<lambda>n. matches ic r (take n (drop i s))) [0..<Suc (length s - i)])
       [0..<Suc (length s)]"

text \<open>
  \<open>parseInt(s)\<close> without a radix: leading white space is skipped, a sign is read, a
  prefix \<open>0x\<close> or \<open>0X\<close> selects radix 16, and the longest run of digits is the value;
  no digit at all gives \<open>NaN\<close>.
\<close>

definition digit_value :: "nat \<Rightarrow> uchar \<Rightarrow> nat option" where
  "digit_value radix c =
     (let v = (if 0x30 \<le> c \<and> c \<le> 0x39 then Some (unat c - 0x30)
               else if 0x61 \<le> c \<and> c \<le> 0x7A then Some (unat c - 0x61 + 10)
               else if 0x41 \<le> c \<and> c \<le> 0x5A then Some (unat c - 0x41 + 10)
               else None)
      in case v of None \<Rightarrow> None | Some d \<Rightarrow> if d < radix then Some d else None)"

definition parse_digits :: "nat \<Rightarrow> jsstring \<Rightarrow> jsval" where
  "parse_digits radix s =
     (let ds = takeWhile (\<lambda>c. digit_value radix c \<noteq> None) s
      in if ds = [] then JNaN
         else JNum (int (foldl (\<lambda>acc c. case digit_value radix c of
                                            None \<Rightarrow> acc
                                          | Some d \<Rightarrow> acc * radix + d) 0 ds)))"

definition negate :: "jsval \<Rightarrow> jsval" where
  "negate v = (case v of JNum n \<Rightarrow> JNum (- n) | _ \<Rightarrow> v)"

definition parse_unsigned :: "jsstring \<Rightarrow> jsval" where
  "parse_unsigned s =
     (if startsWith s (str ''0x'') \<or> startsWith s (str ''0X'')
      then parse_digits 16 (drop 2 s)
      else parse_digits 10 s)"

definition parseInt :: "jsstring \<Rightarrow> jsval" where
  "parseInt s =
     (case dropWhile js_whitespace s of
        [] \<Rightarrow> JNaN
      | c # cs \<Rightarrow>
          if c = 0x2D then negate (parse_unsigned cs)
          else if c = 0x2B then parse_unsigned cs
          else parse_unsigned (c # cs))"

section \<open>Validation (utils.js, constants.js)\<close>

text \<open>
  \<open>DOMAIN_REGEX = /^([a-z0-9]([a-z0-9-]{0,61}[a-z0-9])?\.)+[a-z]{2,}$/i\<close> and
  \<open>DANGEROUS_CHARS_REGEX = /[\x00-\x1f\x7f-\x9f\u2000-\u200f\u2028-\u202f\u205f-\u206f]/\<close>.
\<close>

definition DOMAIN_REGEX :: rx where
  "DOMAIN_REGEX =
     Seq (AtLeast 1
            (Seq (Cls [(0x61, 0x7A), (0x30, 0x39)])
              (Seq (Opt (Seq (UpTo 61 (Cls [(0x61, 0x7A), (0x30, 0x39), (0x2D, 0x2D)]))
                             (Cls [(0x61, 0x7A), (0x30, 0x39)])))
                   (Cls [(0x2E, 0x2E)]))))
         (AtLeast 2 (Cls [(0x61, 0x7A)]))"

definition DANGEROUS_CHARS_REGEX :: rx where
  "DANGEROUS_CHARS_REGEX =
     Cls [(0x00, 0x1F), (0x7F, 0x9F), (0x2000, 0x200F), (0x2028, 0x202F), (0x205F, 0x206F)]"

text \<open>The pattern of the ASCII check, \<open>/^[\x00-\x7F]*$/\<close>.\<close>

definition ASCII_REGEX :: rx where
  "ASCII_REGEX = Star (Cls [(0x00, 0x7F)])"

text \<open>
  The nine messages of \<open>validateDomainName\<close>, in the order of its checks: empty domain,
  longer than 253, illegal character, wildcard, not ASCII, malformed, consecutive dots,
  dot at an end, label longer than 63.
\<close>

datatype domain_error =
    EmptyDomain
  | DomainTooLong
  | DangerousChars
  | Wildcard
  | NotAscii
  | BadFormat
  | ConsecutiveDots
  | EdgeDot
  | LabelTooLong

record validation =
  valid :: bool
  verror :: "domain_error option"

definition invalid :: "domain_error \<Rightarrow> validation" where
  "invalid e = \<lparr>valid = False, verror = Some e\<rparr>"

definition validateDomainName :: "jsstring \<Rightarrow> validation" where
  "validateDomainName domain =
     (if domain = [] \<or> length domain = 0 then invalid EmptyDomain
      else if length domain > 253 then invalid DomainTooLong
      else if test_anywhere False DANGEROUS_CHARS_REGEX domain then invalid DangerousChars
      else if js_includes domain (str ''*'') then invalid Wildcard
      else if \<not> test_anchored False ASCII_REGEX domain then invalid NotAscii
      else if \<not> test_anchored True DOMAIN_REGEX domain then invalid BadFormat
      else if js_includes domain (str ''..'') then invalid ConsecutiveDots
      else if startsWith domain (str ''.'') \<or> endsWith domain (str ''.'') then invalid EdgeDot
      else if list_ex (\<lambda>label. length label > 63) (js_split 0x2E domain)
        then invalid LabelTooLong
      else \<lparr>valid = True, verror = None\<rparr>)"

text \<open>
  A whitelist entry as \<open>parseWhitelistLine\<close> builds it and as the store keeps it: an object
  with a string \<open>domain\<close> and the two flags.
\<close>

record whitelist_entry =
  domain :: jsstring
  keepCookies :: jsval
  keepCache :: jsval

text \<open>
  The messages of \<open>parseWhitelistLine\<close> are the line number, a reason and the line in
  parentheses; the reason is the \<open>error\<close> field of the result of \<open>validateDomainName\<close>, the flag
  message or the format message. (The \<open>catch\<close> of the function is not reached on a string.)
\<close>

datatype line_reason = DomainReason "domain_error option" | FlagReason | FormatReason

datatype line_error = LineError nat line_reason jsstring

record parse_result =
  success :: bool
  entry :: "whitelist_entry option"
  error :: "line_error option"

definition failure :: "line_error \<Rightarrow> parse_result" where
  "failure e = \<lparr>success = False, entry = None, error = Some e\<rparr>"

definition isValidFlag :: "jsstring \<Rightarrow> bool" where
  "isValidFlag flagValue = (flagValue = str ''0'' \<or> flagValue = str ''1'')"

definition parseWhitelistLine :: "jsstring \<Rightarrow> nat \<Rightarrow> parse_result" where
  "parseWhitelistLine line lineIndex =
     (let lineNumber = lineIndex + 1;
          parts = map trim (js_split 0x2C line);
          domain = parts ! 0;
          validation = validateDomainName domain
      in if \<not> valid validation
           then failure (LineError lineNumber (DomainReason (verror validation)) line)
         else if length parts = 1
           then \<lparr>success = True,
                 entry = Some \<lparr>domain = domain, keepCookies = JNum 1, keepCache = JNum 1\<rparr>,
                 error = None\<rparr>
         else if length parts = 3
           then (let keepCookiesStr = parts ! 1; keepCacheStr = parts ! 2
                 in if \<not> isValidFlag keepCookiesStr \<or> \<not> isValidFlag keepCacheStr
                      then failure (LineError lineNumber FlagReason line)
                    else \<lparr>success = True,
                          entry = Some \<lparr>domain = domain,
                                         keepCookies = parseInt keepCookiesStr,
                                         keepCache = parseInt keepCacheStr\<rparr>,
                          error = None\<rparr>)
         else failure (LineError lineNumber FormatReason line))"

section \<open>The settings store (constants.js, settingsManager.js)\<close>

definition DEFAULT_RUN_ON_STARTUP :: jsval where "DEFAULT_RUN_ON_STARTUP = JBool False"
definition DEFAULT_RUN_ON_CLOSE :: jsval where "DEFAULT_RUN_ON_CLOSE = JBool False"
definition DEFAULT_REMOVE_DOWNLOADS :: jsval where "DEFAULT_REMOVE_DOWNLOADS = JBool True"
definition DEFAULT_REMOVE_FORMDATA :: jsval where "DEFAULT_REMOVE_FORMDATA = JBool True"
definition DEFAULT_REMOVE_HISTORY :: jsval where "DEFAULT_REMOVE_HISTORY = JBool True"
definition DEFAULT_REMOVE_COOKIES :: jsval where "DEFAULT_REMOVE_COOKIES = JBool True"
definition DEFAULT_REMOVE_CACHE_AND_STORAGE :: jsval where
  "DEFAULT_REMOVE_CACHE_AND_STORAGE = JBool True"

definition KEY_WHITELIST :: string where "KEY_WHITELIST = ''whitelist''"
definition KEY_RUN_ON_STARTUP :: string where "KEY_RUN_ON_STARTUP = ''runOnStartup''"
definition KEY_RUN_ON_CLOSE :: string where "KEY_RUN_ON_CLOSE = ''runOnClose''"
definition KEY_REMOVE_DOWNLOADS :: string where "KEY_REMOVE_DOWNLOADS = ''removeDownloads''"
definition KEY_REMOVE_FORMDATA :: string where "KEY_REMOVE_FORMDATA = ''removeFormData''"
definition KEY_REMOVE_HISTORY :: string where "KEY_REMOVE_HISTORY = ''removeHistory''"
definition KEY_REMOVE_COOKIES :: string where "KEY_REMOVE_COOKIES = ''removeCookies''"
definition KEY_REMOVE_CACHE_AND_STORAGE :: string where
  "KEY_REMOVE_CACHE_AND_STORAGE = ''removeCacheAndStorage''"

definition DOMAIN :: string where "DOMAIN = ''domain''"
definition KEEP_COOKIES :: string where "KEEP_COOKIES = ''keepCookies''"
definition KEEP_CACHE :: string where "KEEP_CACHE = ''keepCache''"

text \<open>
  The fields of a \<open>SettingsManager\<close>. \<open>applyLoadedSettings\<close> stores whatever the store
  returns, so every field is a JavaScript value.
\<close>

record settings =
  whitelist :: jsval
  runOnStartup :: jsval
  runOnClose :: jsval
  removeDownloads :: jsval
  removeFormData :: jsval
  removeHistory :: jsval
  removeCookies :: jsval
  removeCacheAndStorage :: jsval

definition initializeDefaults :: settings where
  "initializeDefaults =
     \<lparr>whitelist = JArr [],
      runOnStartup = DEFAULT_RUN_ON_STARTUP,
      runOnClose = DEFAULT_RUN_ON_CLOSE,
      removeDownloads = DEFAULT_REMOVE_DOWNLOADS,
      removeFormData = DEFAULT_REMOVE_FORMDATA,
      removeHistory = DEFAULT_REMOVE_HISTORY,
      removeCookies = DEFAULT_REMOVE_COOKIES,
      removeCacheAndStorage = DEFAULT_REMOVE_CACHE_AND_STORAGE\<rparr>"

text \<open>\<open>result\<close> is the object that \<open>chrome.storage.local.get\<close> resolves to, as its properties.\<close>

definition applyLoadedSettings :: "(string \<times> jsval) list \<Rightarrow> settings" where
  "applyLoadedSettings result =
     \<lparr>whitelist = nullish (js_prop result KEY_WHITELIST) (JArr []),
      runOnStartup = nullish (js_prop result KEY_RUN_ON_STARTUP) DEFAULT_RUN_ON_STARTUP,
      runOnClose = nullish (js_prop result KEY_RUN_ON_CLOSE) DEFAULT_RUN_ON_CLOSE,
      removeDownloads = nullish (js_prop result KEY_REMOVE_DOWNLOADS) DEFAULT_REMOVE_DOWNLOADS,
      removeFormData = nullish (js_prop result KEY_REMOVE_FORMDATA) DEFAULT_REMOVE_FORMDATA,
      removeHistory = nullish (js_prop result KEY_REMOVE_HISTORY) DEFAULT_REMOVE_HISTORY,
      removeCookies = nullish (js_prop result KEY_REMOVE_COOKIES) DEFAULT_REMOVE_COOKIES,
      removeCacheAndStorage =
        nullish (js_prop result KEY_REMOVE_CACHE_AND_STORAGE) DEFAULT_REMOVE_CACHE_AND_STORAGE\<rparr>"

text \<open>
  \<open>getOriginsByFlag\<close>: \<open>filter\<close> with the test \<open>entry[flagName] === 1\<close>, then \<open>flatMap\<close>
  with the two origins of \<open>entry.domain.trim()\<close>. A TypeError (the whitelist is not an
  array, an entry is \<open>null\<close> or \<open>undefined\<close>, a domain is not a string) is caught by the
  method, which then returns the empty array. \<open>None\<close> stands for the thrown TypeError.
\<close>

definition flag_is_one :: "string \<Rightarrow> jsval \<Rightarrow> bool option" where
  "flag_is_one flagName ent = map_option (\<lambda>v. v = JNum 1) (js_get ent flagName)"

fun filter_throwing :: "('a \<Rightarrow> bool option) \<Rightarrow> 'a list \<Rightarrow> 'a list option" where
  "filter_throwing p [] = Some []"
| "filter_throwing p (x # xs) =
     (case p x of
        None \<Rightarrow> None
      | Some b \<Rightarrow> (case filter_throwing p xs of
                    None \<Rightarrow> None
                  | Some ys \<Rightarrow> Some (if b then x # ys else ys)))"

fun flatMap_throwing :: "('a \<Rightarrow> 'b list option) \<Rightarrow> 'a list \<Rightarrow> 'b list option" where
  "flatMap_throwing f [] = Some []"
| "flatMap_throwing f (x # xs) =
     (case f x of
        None \<Rightarrow> None
      | Some ys \<Rightarrow> (case flatMap_throwing f xs of
                     None \<Rightarrow> None
                   | Some zs \<Rightarrow> Some (ys @ zs)))"

definition entry_origins :: "jsval \<Rightarrow> jsstring list option" where
  "entry_origins ent =
     (case js_get ent DOMAIN of
        Some (JStr d) \<Rightarrow> Some [str ''https://'' @ trim d, str ''http://'' @ trim d]
      | _ \<Rightarrow> None)"

definition getOriginsByFlag :: "settings \<Rightarrow> string \<Rightarrow> jsstring list" where
  "getOriginsByFlag this flagName =
     (case whitelist this of
        JArr entries \<Rightarrow>
          (case filter_throwing (flag_is_one flagName) entries of
             None \<Rightarrow> []
           | Some selected \<Rightarrow>
               (case flatMap_throwing entry_origins selected of
                  None \<Rightarrow> []
                | Some origins \<Rightarrow> origins))
      | _ \<Rightarrow> [])"

text \<open>A whitelist entry as the object that the store keeps.\<close>

definition entry_object :: "whitelist_entry \<Rightarrow> jsval" where
  "entry_object e =
     JObj [(DOMAIN, JStr (domain e)), (KEEP_COOKIES, keepCookies e), (KEEP_CACHE, keepCache e)]"

section \<open>The host\<close>

text \<open>
  What the program sees of the browser: the outcome of each call of
  \<open>chrome.browsingData.remove\<close> (given the calls made before it), of the reads and writes
  of session and local storage and of \<open>chrome.windows.getAll\<close>, and the extension id. An
  error is a thrown TypeError or the error of the host with its message.
\<close>

datatype js_error = TypeError | HostError jsstring

record removal_call =
  since :: int
  excludeOrigins :: "jsstring list option"
  dataTypes :: "(string \<times> jsval) list"

record host =
  removal_error :: "removal_call list \<Rightarrow> removal_call \<Rightarrow> js_error option"
  session_get_error :: "js_error option"
  session_set_error :: "js_error option"
  local_get :: "js_error + (string \<times> jsval) list"
  windows_getAll :: "js_error + nat list option"
  runtime_id :: jsstring
  type_error_message :: jsstring

definition message :: "host \<Rightarrow> js_error \<Rightarrow> jsstring" where
  "message h e = (case e of TypeError \<Rightarrow> type_error_message h | HostError m \<Rightarrow> m)"

record response =
  response_success :: bool
  response_error :: "jsstring option"

text \<open>
  The state that the handlers change: the calls of \<open>chrome.browsingData.remove\<close> made so
  far, the value of \<open>startupCleanExecuted\<close> in session storage, the settings object and the
  responses sent.
\<close>

record world =
  calls :: "removal_call list"
  startupCleanExecuted :: jsval
  settings :: settings
  responses :: "response list"

definition load :: "host \<Rightarrow> world \<Rightarrow> js_error + world" where
  "load h w =
     (case local_get h of
        Inl e \<Rightarrow> Inl e
      | Inr result \<Rightarrow> Inr (w\<lparr>settings := applyLoadedSettings result\<rparr>))"

section \<open>The cleaner (dataCleaner.js)\<close>

definition removeBrowsingData :: "host \<Rightarrow> removal_call \<Rightarrow> world \<Rightarrow> js_error option \<times> world" where
  "removeBrowsingData h c w = (removal_error h (calls w) c, w\<lparr>calls := calls w @ [c]\<rparr>)"

definition removeBulkData :: "host \<Rightarrow> world \<Rightarrow> js_error option \<times> world" where
  "removeBulkData h w =
     removeBrowsingData h
       \<lparr>since = 0, excludeOrigins = None,
        dataTypes = [(''appcache'', JBool True),
                     (''downloads'', removeDownloads (settings w)),
                     (''formData'', removeFormData (settings w)),
                     (''history'', removeHistory (settings w))]\<rparr> w"

definition DataCleaner_removeCookies :: "host \<Rightarrow> world \<Rightarrow> js_error option \<times> world" where
  "DataCleaner_removeCookies h w =
     (if \<not> truthy (removeCookies (settings w)) then (None, w)
      else let excludeOrigins = getOriginsByFlag (settings w) KEEP_COOKIES
           in removeBrowsingData h
                \<lparr>since = 0, excludeOrigins = Some excludeOrigins,
                 dataTypes = [(''cookies'', JBool True)]\<rparr> w)"

definition DataCleaner_removeCacheAndStorage :: "host \<Rightarrow> world \<Rightarrow> js_error option \<times> world" where
  "DataCleaner_removeCacheAndStorage h w =
     (if \<not> truthy (removeCacheAndStorage (settings w)) then (None, w)
      else let excludeOrigins = getOriginsByFlag (settings w) KEEP_CACHE
           in removeBrowsingData h
                \<lparr>since = 0, excludeOrigins = Some excludeOrigins,
                 dataTypes = [(''cacheStorage'', JBool True),
                              (''cache'', JBool True),
                              (''fileSystems'', JBool True),
                              (''indexedDB'', JBool True),
                              (''localStorage'', JBool True),
                              (''serviceWorkers'', JBool True),
                              (''webSQL'', JBool True)]\<rparr> w)"

text \<open>
  \<open>clearAll\<close> starts the three passes in this order; each makes its call before it first
  waits. \<open>Promise.all\<close> rejects with the error of the pass that fails first; the passes are
  taken to settle in the order in which they were started.
\<close>

fun first_error :: "js_error option list \<Rightarrow> js_error option" where
  "first_error [] = None"
| "first_error (None # rs) = first_error rs"
| "first_error (Some e # rs) = Some e"

definition clearAll :: "host \<Rightarrow> world \<Rightarrow> js_error option \<times> world" where
  "clearAll h w =
     (let (r1, w1) = removeBulkData h w;
          (r2, w2) = DataCleaner_removeCookies h w1;
          (r3, w3) = DataCleaner_removeCacheAndStorage h w2
      in (first_error [r1, r2, r3], w3))"

section \<open>The event handlers (eventHandler.js)\<close>

text \<open>Every error in \<open>handleStartupIfNeeded\<close> is caught and logged.\<close>

definition handleStartupIfNeeded :: "host \<Rightarrow> world \<Rightarrow> world" where
  "handleStartupIfNeeded h w =
     (case session_get_error h of
        Some e \<Rightarrow> w
      | None \<Rightarrow>
          if truthy (startupCleanExecuted w) then w
          else if truthy (runOnStartup (settings w)) then
            (case clearAll h w of
               (Some e, w') \<Rightarrow> w'
             | (None, w') \<Rightarrow>
                 (case session_set_error h of
                    Some e \<Rightarrow> w'
                  | None \<Rightarrow> w'\<lparr>startupCleanExecuted := JBool True\<rparr>))
          else w)"

text \<open>The sender of a message is an object; its \<open>id\<close> may be missing.\<close>

record sender =
  sender_id :: jsval

definition sendResponse :: "response \<Rightarrow> world \<Rightarrow> world" where
  "sendResponse r w = w\<lparr>responses := responses w @ [r]\<rparr>"

definition isValidSender :: "host \<Rightarrow> sender \<Rightarrow> bool" where
  "isValidSender h sender = (truthy (sender_id sender) \<and> sender_id sender = JStr (runtime_id h))"

definition handleDeleteDataRequest :: "host \<Rightarrow> world \<Rightarrow> world" where
  "handleDeleteDataRequest h w =
     (case clearAll h w of
        (None, w') \<Rightarrow> sendResponse \<lparr>response_success = True, response_error = None\<rparr> w'
      | (Some err, w') \<Rightarrow>
          sendResponse \<lparr>response_success = False, response_error = Some (message h err)\<rparr> w')"

definition handleMessage :: "host \<Rightarrow> jsval \<Rightarrow> sender \<Rightarrow> world \<Rightarrow> bool \<times> world" where
  "handleMessage h request sender w =
     (if \<not> isValidSender h sender then
        (False, sendResponse \<lparr>response_success = False,
                              response_error = Some (str ''Unauthorized'')\<rparr> w)
      else (case js_get request ''action'' of
              None \<Rightarrow>
                (False, sendResponse \<lparr>response_success = False,
                                      response_error = Some (message h TypeError)\<rparr> w)
            | Some action \<Rightarrow>
                if action = JStr (str ''deleteData'') then (True, handleDeleteDataRequest h w)
                else (False, w)))"

text \<open>
  \<open>checkIfLastWindow\<close>: the windows that remain after the close; \<open>!windows\<close> covers a
  result that is no array (\<open>None\<close>).
\<close>

definition checkIfLastWindow :: "host \<Rightarrow> nat \<Rightarrow> js_error + bool" where
  "checkIfLastWindow h closedWindowId =
     (case windows_getAll h of
        Inl e \<Rightarrow> Inl e
      | Inr windows \<Rightarrow>
          Inr (case windows of None \<Rightarrow> True | Some ws \<Rightarrow> length ws = 0))"

definition handleWindowCloseEvent :: "host \<Rightarrow> nat \<Rightarrow> world \<Rightarrow> world" where
  "handleWindowCloseEvent h closedWindowId w =
     (case load h w of
        Inl e \<Rightarrow> w
      | Inr w1 \<Rightarrow>
          if \<not> truthy (runOnClose (settings w1)) then w1
          else (case checkIfLastWindow h closedWindowId of
                  Inl e \<Rightarrow> w1
                | Inr isLastWindow \<Rightarrow>
                    if isLastWindow then snd (clearAll h w1) else w1))"

section \<open>The whitelist text of the options page (options.js)\<close>

text \<open>
  The page shows each stored entry as the line \<open>domain,keepCookies,keepCache\<close> with the
  flags as \<open>1\<close> or \<open>0\<close>, joined by line feeds. On saving it splits the text at line feeds,
  trims the lines, drops the empty ones and parses each with its index.
\<close>

definition entry_line :: "whitelist_entry \<Rightarrow> jsstring" where
  "entry_line e =
     domain e @ str '','' @ (if truthy (keepCookies e) then str ''1'' else str ''0'')
       @ str '','' @ (if truthy (keepCache e) then str ''1'' else str ''0'')"

definition whitelist_text :: "whitelist_entry list \<Rightarrow> jsstring" where
  "whitelist_text es = js_join [0x0A] (map entry_line es)"

definition text_lines :: "jsstring \<Rightarrow> jsstring list" where
  "text_lines t = filter (\<lambda>line. length line > 0) (map trim (js_split 0x0A t))"

definition parse_lines :: "jsstring list \<Rightarrow> parse_result list" where
  "parse_lines ls = map (\<lambda>(index, line). parseWhitelistLine line index) (enumerate 0 ls)"

section \<open>The vocabulary of the specification\<close>

text \<open>
  ASCII letters and digits, and the label rules in the words of the specification: a
  label is alphanumeric, possibly hyphenated, and neither starts nor ends with a hyphen;
  the final label (the TLD) has at least two letters; a label has at most 63 characters.
\<close>

definition is_letter :: "uchar \<Rightarrow> bool" where
  "is_letter c = ((0x41 \<le> c \<and> c \<le> 0x5A) \<or> (0x61 \<le> c \<and> c \<le> 0x7A))"

definition is_alnum :: "uchar \<Rightarrow> bool" where
  "is_alnum c = ((0x30 \<le> c \<and> c \<le> 0x39) \<or> is_letter c)"

definition hyphenated_label :: "jsstring \<Rightarrow> bool" where
  "hyphenated_label l \<longleftrightarrow>
     l \<noteq> [] \<and> list_all (\<lambda>c. is_alnum c \<or> c = 0x2D) l \<and> hd l \<noteq> 0x2D \<and> last l \<noteq> 0x2D"

definition label_ok :: "jsstring \<Rightarrow> bool" where
  "label_ok l \<longleftrightarrow> hyphenated_label l \<and> length l \<le> 63"

definition tld_ok :: "jsstring \<Rightarrow> bool" where
  "tld_ok t \<longleftrightarrow> 2 \<le> length t \<and> list_all is_letter t"

text \<open>The group \<open>([a-z0-9]([a-z0-9-]{0,61}[a-z0-9])?\.)\<close> of \<open>DOMAIN_REGEX\<close>.\<close>

definition label_group :: rx where
  "label_group =
     Seq (Cls [(0x61, 0x7A), (0x30, 0x39)])
       (Seq (Opt (Seq (UpTo 61 (Cls [(0x61, 0x7A), (0x30, 0x39), (0x2D, 0x2D)]))
                      (Cls [(0x61, 0x7A), (0x30, 0x39)])))
            (Cls [(0x2E, 0x2E)]))"

text \<open>Labels, each followed by a dot.\<close>

definition dotted :: "jsstring list \<Rightarrow> jsstring" where
  "dotted ls = concat (map (\<lambda>l. l @ [0x2E]) ls)"

text \<open>
  The rules of a domain in the words of the specification: one or more dot-separated
  labels, each alphanumeric and possibly hyphenated but not starting or ending with a
  hyphen, the final label of at least two letters, the total length at most 253 and each
  label at most 63 characters.
\<close>

definition label_tld_rules :: "jsstring \<Rightarrow> bool" where
  "label_tld_rules d \<longleftrightarrow>
     1 \<le> length (js_split 0x2E d)
     \<and> list_all hyphenated_label (js_split 0x2E d)
     \<and> tld_ok (last (js_split 0x2E d))
     \<and> length d \<le> 253
     \<and> list_all (\<lambda>l. length l \<le> 63) (js_split 0x2E d)"

text \<open>
  The checks of a domain in the order in which the specification lists them, each with
  its error, and the error of the first check that fails.
\<close>

definition dangerous_char :: "uchar \<Rightarrow> bool" where
  "dangerous_char c =
     (c \<le> 0x1F \<or> (0x7F \<le> c \<and> c \<le> 0x9F) \<or> (0x2000 \<le> c \<and> c \<le> 0x200F)
      \<or> (0x2028 \<le> c \<and> c \<le> 0x202F) \<or> (0x205F \<le> c \<and> c \<le> 0x206F))"

definition domain_checks :: "(domain_error \<times> (jsstring \<Rightarrow> bool)) list" where
  "domain_checks =
     [(EmptyDomain, \<lambda>d. d = []),
      (DomainTooLong, \<lambda>d. 253 < length d),
      (DangerousChars, \<lambda>d. list_ex dangerous_char d),
      (Wildcard, \<lambda>d. 0x2A \<in> set d),
      (NotAscii, \<lambda>d. list_ex (\<lambda>c. 0x7F < c) d),
      (BadFormat, \<lambda>d. \<not> test_anchored True DOMAIN_REGEX d),
      (ConsecutiveDots, \<lambda>d. js_includes d [0x2E, 0x2E]),
      (EdgeDot, \<lambda>d. startsWith d [0x2E] \<or> endsWith d [0x2E]),
      (LabelTooLong, \<lambda>d. list_ex (\<lambda>l. 63 < length l) (js_split 0x2E d))]"

definition first_failure :: "jsstring \<Rightarrow> domain_error option" where
  "first_failure d = map_option fst (find (\<lambda>(e, fails). fails d) domain_checks)"

section \<open>Regular expression matching\<close>

declare matches.simps [simp del]

lemma matches_Cls: "matches ic (Cls rs) s \<longleftrightarrow> (\<exists>c. s = [c] \<and> in_class ic rs c)"
  by (simp add: matches.simps split: list.splits)

lemma matches_Seq:
  "matches ic (Seq a b) s \<longleftrightarrow> (\<exists>u v. s = u @ v \<and> matches ic a u \<and> matches ic b v)"
proof
  assume "matches ic (Seq a b) s"
  then obtain i where "matches ic a (take i s)" "matches ic b (drop i s)"
    unfolding matches.simps list_ex_iff by blast
  then show "\<exists>u v. s = u @ v \<and> matches ic a u \<and> matches ic b v"
    by (intro exI[of _ "take i s"] exI[of _ "drop i s"]) simp
next
  assume "\<exists>u v. s = u @ v \<and> matches ic a u \<and> matches ic b v"
  then obtain u v where uv: "s = u @ v" "matches ic a u" "matches ic b v" by blast
  then have "length u \<in> set [0..<Suc (length s)]" by simp
  moreover have "matches ic a (take (length u) s) \<and> matches ic b (drop (length u) s)"
    using uv by simp
  ultimately show "matches ic (Seq a b) s"
    unfolding matches.simps list_ex_iff by blast
qed

lemma matches_Star:
  "matches ic (Star a) s \<longleftrightarrow>
     s = [] \<or> (\<exists>u v. u \<noteq> [] \<and> s = u @ v \<and> matches ic a u \<and> matches ic (Star a) v)"
  (is "?L \<longleftrightarrow> ?R")
proof -
  let ?E = "list_ex (\<lambda>i. matches ic a (take i s) \<and> matches ic (Star a) (drop i s))
              [1..<Suc (length s)]"
  have unfold: "?L \<longleftrightarrow> s = [] \<or> ?E"
    by (rule matches.simps(5))
  have "?E \<longleftrightarrow> (\<exists>u v. u \<noteq> [] \<and> s = u @ v \<and> matches ic a u \<and> matches ic (Star a) v)"
  proof
    assume ?E
    then obtain i where i: "1 \<le> i" "i \<le> length s"
      "matches ic a (take i s)" "matches ic (Star a) (drop i s)"
      unfolding list_ex_iff by auto
    from i have "take i s \<noteq> []" by auto
    with i show "\<exists>u v. u \<noteq> [] \<and> s = u @ v \<and> matches ic a u \<and> matches ic (Star a) v"
      by (intro exI[of _ "take i s"] exI[of _ "drop i s"]) simp
  next
    assume "\<exists>u v. u \<noteq> [] \<and> s = u @ v \<and> matches ic a u \<and> matches ic (Star a) v"
    then obtain u v where uv: "u \<noteq> []" "s = u @ v" "matches ic a u" "matches ic (Star a) v"
      by blast
    then have "1 \<le> length u \<and> length u < Suc (length s)" by (cases u) simp_all
    then have "length u \<in> set [1..<Suc (length s)]" by (simp del: upt_Suc)
    moreover have "matches ic a (take (length u) s) \<and> matches ic (Star a) (drop (length u) s)"
      using uv by simp
    ultimately show ?E
      unfolding list_ex_iff by blast
  qed
  with unfold show ?thesis by simp
qed

lemma matches_Eps: "matches ic Eps s \<longleftrightarrow> s = []"
  by (simp add: matches.simps)

lemma matches_Alt: "matches ic (Alt a b) s \<longleftrightarrow> matches ic a s \<or> matches ic b s"
  by (simp add: matches.simps)

lemma matches_Opt: "matches ic (Opt r) s \<longleftrightarrow> s = [] \<or> matches ic r s"
  by (simp add: Opt_def matches_Alt matches_Eps)

lemma matches_Star_Nil: "matches ic (Star a) []"
  by (rule iffD2[OF matches.simps(5)]) simp

lemma matches_Star_Cls: "matches ic (Star (Cls rs)) s \<longleftrightarrow> list_all (in_class ic rs) s"
proof (induction s)
  case Nil show ?case by (simp add: matches_Star_Nil)
next
  case (Cons c cs)
  have "matches ic (Star (Cls rs)) (c # cs) \<longleftrightarrow>
          in_class ic rs c \<and> matches ic (Star (Cls rs)) cs" (is "?L \<longleftrightarrow> ?R")
  proof
    assume ?L
    then obtain u v where uv: "u \<noteq> []" "c # cs = u @ v" "matches ic (Cls rs) u"
      "matches ic (Star (Cls rs)) v"
      using matches_Star[of ic "Cls rs" "c # cs"] by blast
    from uv(3) obtain d where "u = [d]" "in_class ic rs d"
      unfolding matches_Cls by blast
    with uv show ?R by simp
  next
    assume ?R
    then have "[c] \<noteq> [] \<and> c # cs = [c] @ cs \<and> matches ic (Cls rs) [c]
        \<and> matches ic (Star (Cls rs)) cs"
      by (simp add: matches_Cls)
    then show ?L
      using matches_Star[of ic "Cls rs" "c # cs"] by blast
  qed
  with Cons show ?case by simp
qed

lemma matches_Cls_Seq:
  "matches ic (Seq (Cls rs) b) s \<longleftrightarrow> (\<exists>c v. s = c # v \<and> in_class ic rs c \<and> matches ic b v)"
  unfolding matches_Seq matches_Cls by (auto simp: Cons_eq_append_conv intro: exI[of _ "[c]" for c])

lemma matches_UpTo_Cls:
  "matches ic (UpTo n (Cls rs)) s \<longleftrightarrow> length s \<le> n \<and> list_all (in_class ic rs) s"
proof (induction n arbitrary: s)
  case 0 show ?case by (auto simp: matches_Eps)
next
  case (Suc n)
  show ?case 
    by (cases s) (auto simp: matches_Opt matches_Cls_Seq Suc)
qed

lemma matches_AtLeast_Cls:
  "matches ic (AtLeast n (Cls rs)) s \<longleftrightarrow> n \<le> length s \<and> list_all (in_class ic rs) s"
proof (induction n arbitrary: s)
  case 0 show ?case by (simp add: matches_Star_Cls)
next
  case (Suc n)
  show ?case 
    by (cases s) (auto simp: matches_Cls_Seq Suc)
qed

subsection \<open>The character classes of the program\<close>

lemma upper_shift: "(0x41::uchar) \<le> c \<Longrightarrow> c \<le> 0x5A \<Longrightarrow> 0x61 \<le> c + 0x20 \<and> c + 0x20 \<le> 0x7A"
  by unat_arith simp

lemma class_letter: "in_class True [(0x61, 0x7A)] c \<longleftrightarrow> is_letter c"
  using upper_shift[of c] by (auto simp: in_class_def ascii_swapcase_def is_letter_def)

lemma class_alnum: "in_class True [(0x61, 0x7A), (0x30, 0x39)] c \<longleftrightarrow> is_alnum c"
  using upper_shift[of c] by (auto simp: in_class_def ascii_swapcase_def is_letter_def is_alnum_def)

lemma class_alnum_hyphen:
  "in_class True [(0x61, 0x7A), (0x30, 0x39), (0x2D, 0x2D)] c \<longleftrightarrow> is_alnum c \<or> c = 0x2D"
  using upper_shift[of c] by (auto simp: in_class_def ascii_swapcase_def is_letter_def is_alnum_def)

lemma class_dot: "in_class True [(0x2E, 0x2E)] c \<longleftrightarrow> c = 0x2E"
  by (auto simp: in_class_def ascii_swapcase_def)

lemma is_alnum_not_hyphen: "is_alnum c \<Longrightarrow> c \<noteq> 0x2D"
  by (auto simp: is_alnum_def is_letter_def)

lemma hyphen_not_alnum: "\<not> is_alnum 0x2D"
  by (simp add: is_alnum_def is_letter_def)

lemma is_alnum_not_dot: "is_alnum c \<Longrightarrow> c \<noteq> 0x2E"
  by (auto simp: is_alnum_def is_letter_def)

lemma is_letter_not_dot: "is_letter c \<Longrightarrow> c \<noteq> 0x2E"
  by (auto simp: is_letter_def)

lemma class_letter_eq: "in_class True [(0x61, 0x7A)] = is_letter"
  by (rule ext) (rule class_letter)

lemma class_alnum_hyphen_eq:
  "in_class True [(0x61, 0x7A), (0x30, 0x39), (0x2D, 0x2D)] = (\<lambda>c. is_alnum c \<or> c = 0x2D)"
  by (rule ext) (rule class_alnum_hyphen)

lemma matches_Seq_Cls:
  "matches ic (Seq a (Cls rs)) s \<longleftrightarrow> (\<exists>v c. s = v @ [c] \<and> in_class ic rs c \<and> matches ic a v)"
  unfolding matches_Seq matches_Cls by blast

lemma label_ok_single: "label_ok [c] \<longleftrightarrow> is_alnum c"
  by (auto simp: label_ok_def hyphenated_label_def hyphen_not_alnum)

lemma label_ok_longer:
  "label_ok (c # m @ [d]) \<longleftrightarrow>
     is_alnum c \<and> is_alnum d \<and> length m \<le> 61 \<and> list_all (\<lambda>c. is_alnum c \<or> c = 0x2D) m"
  by (auto simp: label_ok_def hyphenated_label_def hyphen_not_alnum)

lemma matches_label_tail:
  "matches True (Opt (Seq (UpTo 61 (Cls [(0x61, 0x7A), (0x30, 0x39), (0x2D, 0x2D)]))
                      (Cls [(0x61, 0x7A), (0x30, 0x39)]))) w \<longleftrightarrow>
     w = [] \<or> (\<exists>m d. w = m @ [d] \<and> is_alnum d \<and> length m \<le> 61
                  \<and> list_all (\<lambda>c. is_alnum c \<or> c = 0x2D) m)"
  by (simp add: matches_Opt matches_Seq_Cls matches_UpTo_Cls class_alnum class_alnum_hyphen_eq)

lemma matches_label_group:
  "matches True label_group u \<longleftrightarrow> (\<exists>l. u = l @ [0x2E] \<and> label_ok l)"
proof
  assume "matches True label_group u"
  then obtain c v where cv: "u = c # v" "is_alnum c"
      "matches True (Seq (Opt (Seq (UpTo 61 (Cls [(0x61, 0x7A), (0x30, 0x39), (0x2D, 0x2D)]))
                      (Cls [(0x61, 0x7A), (0x30, 0x39)]))) (Cls [(0x2E, 0x2E)])) v"
    unfolding label_group_def matches_Cls_Seq class_alnum by blast
  from cv(3) obtain w where w: "v = w @ [0x2E]"
    "matches True (Opt (Seq (UpTo 61 (Cls [(0x61, 0x7A), (0x30, 0x39), (0x2D, 0x2D)]))
                      (Cls [(0x61, 0x7A), (0x30, 0x39)]))) w"
    unfolding matches_Seq_Cls class_dot by blast
  from w(2) have "label_ok (c # w)"
    unfolding matches_label_tail using cv(2) by (auto simp: label_ok_single label_ok_longer)
  with cv(1) w(1) show "\<exists>l. u = l @ [0x2E] \<and> label_ok l"
    by (intro exI[of _ "c # w"]) simp
next
  assume "\<exists>l. u = l @ [0x2E] \<and> label_ok l"
  then obtain l where l: "u = l @ [0x2E]" "label_ok l" by blast
  then obtain c w where cw: "l = c # w" by (cases l) (auto simp: label_ok_def hyphenated_label_def)
  have tail: "matches True (Opt (Seq (UpTo 61 (Cls [(0x61, 0x7A), (0x30, 0x39), (0x2D, 0x2D)]))
                      (Cls [(0x61, 0x7A), (0x30, 0x39)]))) w \<and> is_alnum c"
  proof (cases w rule: rev_cases)
    case Nil
    with l(2) cw show ?thesis by (simp add: matches_label_tail label_ok_single)
  next
    case (snoc m d)
    with l(2) cw show ?thesis by (simp add: matches_label_tail label_ok_longer)
  qed
  then have "matches True (Seq (Opt (Seq (UpTo 61 (Cls [(0x61, 0x7A), (0x30, 0x39), (0x2D, 0x2D)]))
                      (Cls [(0x61, 0x7A), (0x30, 0x39)]))) (Cls [(0x2E, 0x2E)])) (w @ [0x2E])"
    unfolding matches_Seq_Cls class_dot by blast
  with tail show "matches True label_group u"
    unfolding label_group_def matches_Cls_Seq class_alnum using l(1) cw by simp
qed

subsection \<open>The domain pattern\<close>

lemma dotted_Nil: "dotted [] = []"
  by (simp add: dotted_def)

lemma dotted_Cons: "dotted (l # ls) = l @ [0x2E] @ dotted ls"
  by (simp add: dotted_def)

lemma matches_Star_labels_fwd:
  "matches True (Star label_group) s \<Longrightarrow> \<exists>ls. list_all label_ok ls \<and> s = dotted ls"
proof (induction "length s" arbitrary: s rule: less_induct)
  case less
  from less.prems consider "s = []"
    | u v where "u \<noteq> []" "s = u @ v" "matches True label_group u" "matches True (Star label_group) v"
    using matches_Star[of True label_group s] by blast
  then show ?case
  proof cases
    case 1
    then have "list_all label_ok [] \<and> s = dotted []" by (simp add: dotted_def)
    then show ?thesis by blast
  next
    case 2
    then have "length v < length s" by simp
    from less.hyps[OF this 2(4)] obtain ls where ls: "list_all label_ok ls" "v = dotted ls"
      by blast
    from 2(3) obtain l where l: "u = l @ [0x2E]" "label_ok l"
      unfolding matches_label_group by blast
    from ls l 2(2) have "list_all label_ok (l # ls) \<and> s = dotted (l # ls)"
      by (simp add: dotted_Cons)
    then show ?thesis by blast
  qed
qed

lemma matches_Star_labels_bwd:
  "list_all label_ok ls \<Longrightarrow> matches True (Star label_group) (dotted ls)"
proof (induction ls)
  case Nil
  show ?case by (simp add: dotted_Nil matches_Star_Nil)
next
  case (Cons l ls)
  then have "l @ [0x2E] \<noteq> [] \<and> dotted (l # ls) = (l @ [0x2E]) @ dotted ls
      \<and> matches True label_group (l @ [0x2E]) \<and> matches True (Star label_group) (dotted ls)"
    by (simp add: dotted_Cons matches_label_group)
  then show ?case
    using matches_Star[of True label_group "dotted (l # ls)"] by blast
qed

lemma matches_Plus_labels:
  "matches True (AtLeast 1 label_group) s \<longleftrightarrow>
     (\<exists>ls. ls \<noteq> [] \<and> list_all label_ok ls \<and> s = dotted ls)"
proof
  assume "matches True (AtLeast 1 label_group) s"
  then obtain u v where uv: "s = u @ v" "matches True label_group u"
    "matches True (Star label_group) v"
    by (auto simp: matches_Seq)
  from uv(2) obtain l where l: "u = l @ [0x2E]" "label_ok l"
    unfolding matches_label_group by blast
  from matches_Star_labels_fwd[OF uv(3)] obtain ls where ls: "list_all label_ok ls" "v = dotted ls"
    by blast
  from uv(1) l ls have "l # ls \<noteq> [] \<and> list_all label_ok (l # ls) \<and> s = dotted (l # ls)"
    by (simp add: dotted_Cons)
  then show "\<exists>ls. ls \<noteq> [] \<and> list_all label_ok ls \<and> s = dotted ls" by blast
next
  assume "\<exists>ls. ls \<noteq> [] \<and> list_all label_ok ls \<and> s = dotted ls"
  then obtain ls0 where ls0: "ls0 \<noteq> []" "list_all label_ok ls0" "s = dotted ls0" by blast
  then obtain l ls where lls: "label_ok l" "list_all label_ok ls" "s = dotted (l # ls)"
    by (cases ls0) auto
  then have "s = (l @ [0x2E]) @ dotted ls \<and> matches True label_group (l @ [0x2E])
      \<and> matches True (Star label_group) (dotted ls)"
    by (simp add: dotted_Cons matches_label_group matches_Star_labels_bwd)
  then have "\<exists>u v. s = u @ v \<and> matches True label_group u \<and> matches True (Star label_group) v"
    by blast
  then show "matches True (AtLeast 1 label_group) s"
    by (simp add: matches_Seq)
qed

lemma matches_tld: "matches True (AtLeast 2 (Cls [(0x61, 0x7A)])) t \<longleftrightarrow> tld_ok t"
  by (simp add: matches_AtLeast_Cls class_letter_eq tld_ok_def)

lemma DOMAIN_REGEX_alt: "DOMAIN_REGEX = Seq (AtLeast 1 label_group) (AtLeast 2 (Cls [(0x61, 0x7A)]))"
  by (simp add: DOMAIN_REGEX_def label_group_def)

lemma matches_DOMAIN_REGEX:
  "matches True DOMAIN_REGEX s \<longleftrightarrow>
     (\<exists>ls t. ls \<noteq> [] \<and> list_all label_ok ls \<and> tld_ok t \<and> s = dotted ls @ t)"
  unfolding DOMAIN_REGEX_alt matches_Seq matches_Plus_labels matches_tld by blast

subsection \<open>Splitting at a separator\<close>

lemma js_split_nonempty: "js_split sep s \<noteq> []"
  by (induction s) (auto split: list.splits)

lemma js_split_nosep: "sep \<notin> set t \<Longrightarrow> js_split sep t = [t]"
  by (induction t) auto

lemma js_split_append: "sep \<notin> set l \<Longrightarrow> js_split sep (l @ sep # r) = l # js_split sep r"
  by (induction l) auto

lemma js_split_parts_nosep: "p \<in> set (js_split sep s) \<Longrightarrow> sep \<notin> set p"
proof (induction s arbitrary: p)
  case Nil then show ?case by simp
next
  case (Cons c cs)
  then show ?case
    by (cases "js_split sep cs") (auto split: if_splits simp: js_split_nonempty)
qed

lemma js_split_dotted:
  "\<forall>l\<in>set ls. 0x2E \<notin> set l \<Longrightarrow> 0x2E \<notin> set t \<Longrightarrow> js_split 0x2E (dotted ls @ t) = ls @ [t]"
proof (induction ls)
  case Nil then show ?case by (simp add: dotted_Nil js_split_nosep)
next
  case (Cons l ls)
  then show ?case by (simp add: dotted_Cons js_split_append)
qed

lemma dotted_js_split:
  "dotted (butlast (js_split 0x2E s)) @ last (js_split 0x2E s) = s"
proof (induction s)
  case Nil show ?case by (simp add: dotted_Nil)
next
  case (Cons c cs)
  show ?case
  proof (cases "c = 0x2E")
    case True
    with Cons show ?thesis by (simp add: js_split_nonempty dotted_Cons)
  next
    case False
    obtain p ps where pps: "js_split 0x2E cs = p # ps"
      using js_split_nonempty[of "0x2E" cs] by (cases "js_split 0x2E cs") auto
    show ?thesis
    proof (cases ps)
      case Nil
      with Cons False pps show ?thesis by (simp add: dotted_Nil)
    next
      case (Cons q qs)
      with Cons.IH False pps show ?thesis by (simp add: dotted_Cons)
    qed
  qed
qed

lemma label_ok_nodot: "label_ok l \<Longrightarrow> 0x2E \<notin> set l"
  by (auto simp: label_ok_def hyphenated_label_def list_all_iff dest: is_alnum_not_dot)

lemma tld_ok_nodot: "tld_ok t \<Longrightarrow> 0x2E \<notin> set t"
  by (auto simp: tld_ok_def list_all_iff dest: is_letter_not_dot)

lemma DOMAIN_REGEX_split:
  "matches True DOMAIN_REGEX s \<longleftrightarrow>
     2 \<le> length (js_split 0x2E s)
     \<and> list_all label_ok (butlast (js_split 0x2E s))
     \<and> tld_ok (last (js_split 0x2E s))"
proof
  assume "matches True DOMAIN_REGEX s"
  then obtain ls t where d: "ls \<noteq> []" "list_all label_ok ls" "tld_ok t" "s = dotted ls @ t"
    unfolding matches_DOMAIN_REGEX by blast
  have "js_split 0x2E s = ls @ [t]"
    unfolding d(4) using d(2,3)
    by (intro js_split_dotted) (auto simp: list_all_iff label_ok_nodot tld_ok_nodot)
  with d show "2 \<le> length (js_split 0x2E s)
     \<and> list_all label_ok (butlast (js_split 0x2E s))
     \<and> tld_ok (last (js_split 0x2E s))"
    by (cases ls) auto
next
  assume a: "2 \<le> length (js_split 0x2E s)
     \<and> list_all label_ok (butlast (js_split 0x2E s))
     \<and> tld_ok (last (js_split 0x2E s))"
  then have "butlast (js_split 0x2E s) \<noteq> []"
    by (cases "js_split 0x2E s" rule: rev_cases) auto
  with a dotted_js_split[of s] show "matches True DOMAIN_REGEX s"
    unfolding matches_DOMAIN_REGEX by metis
qed

lemma test_anywhere_Cls:
  "test_anywhere ic (Cls rs) s \<longleftrightarrow> (\<exists>c\<in>set s. in_class ic rs c)"
proof
  assume "test_anywhere ic (Cls rs) s"
  then obtain i n where "matches ic (Cls rs) (take n (drop i s))"
    unfolding test_anywhere_def list_ex_iff by blast
  then obtain c where c: "take n (drop i s) = [c]" "in_class ic rs c"
    unfolding matches_Cls by blast
  have "set (take n (drop i s)) \<subseteq> set s"
    by (meson set_take_subset set_drop_subset subset_trans)
  with c show "\<exists>c\<in>set s. in_class ic rs c" by auto
next
  assume "\<exists>c\<in>set s. in_class ic rs c"
  then obtain c where c: "c \<in> set s" "in_class ic rs c" by blast
  then obtain i where i: "i < length s" "s ! i = c" by (auto simp: in_set_conv_nth)
  then have "take 1 (drop i s) = [c]"
    by (simp add: Cons_nth_drop_Suc[symmetric])
  with c(2) have m: "matches ic (Cls rs) (take 1 (drop i s))"
    by (simp add: matches_Cls)
  from i have "i \<in> set [0..<Suc (length s)]" "1 \<in> set [0..<Suc (length s - i)]"
    by (auto simp del: upt_Suc)
  with m show "test_anywhere ic (Cls rs) s"
    unfolding test_anywhere_def list_ex_iff by blast
qed

lemma test_ascii: "test_anchored False ASCII_REGEX s \<longleftrightarrow> (\<forall>c\<in>set s. c \<le> 0x7F)"
  by (simp add: test_anchored_def ASCII_REGEX_def matches_Star_Cls list_all_iff in_class_def)

lemma startsWith_iff: "startsWith s n \<longleftrightarrow> (\<exists>r. s = n @ r)"
  by (induction s n rule: startsWith.induct) auto

lemma endsWith_iff: "endsWith s n \<longleftrightarrow> (\<exists>r. s = r @ n)"
proof -
  have "(\<exists>r. rev s = rev n @ r) \<longleftrightarrow> (\<exists>r. s = r @ n)"
    by (metis rev_append rev_rev_ident)
  then show ?thesis by (simp add: endsWith_def startsWith_iff)
qed

lemma js_includes_iff: "js_includes s n \<longleftrightarrow> (\<exists>p q. s = p @ n @ q)"
proof (induction s)
  case Nil show ?case by auto
next
  case (Cons c cs)
  show ?case
  proof
    assume "js_includes (c # cs) n"
    then consider "startsWith (c # cs) n" | "js_includes cs n" by auto
    then show "\<exists>p q. c # cs = p @ n @ q"
    proof cases
      case 1
      then obtain r where "c # cs = [] @ n @ r" unfolding startsWith_iff by auto
      then show ?thesis by blast
    next
      case 2
      then obtain p q where "cs = p @ n @ q" using Cons by blast
      then have "c # cs = (c # p) @ n @ q" by simp
      then show ?thesis by blast
    qed
  next
    assume "\<exists>p q. c # cs = p @ n @ q"
    then obtain p q where pq: "c # cs = p @ n @ q" by blast
    show "js_includes (c # cs) n"
    proof (cases p)
      case Nil
      with pq have "startsWith (c # cs) n" unfolding startsWith_iff by auto
      then show ?thesis by simp
    next
      case (Cons d p')
      with pq have "cs = p' @ n @ q" by simp
      then have "js_includes cs n" using Cons.IH by blast
      then show ?thesis by simp
    qed
  qed
qed

lemma js_includes_single: "js_includes s [c] \<longleftrightarrow> c \<in> set s"
  unfolding js_includes_iff by (auto simp: in_set_conv_decomp)

lemma js_split_sep_append: "js_split sep (p @ sep # r) = js_split sep p @ js_split sep r"
proof (induction p)
  case Nil show ?case by simp
next
  case (Cons c p)
  then show ?case
    by (cases "js_split sep p") (auto simp: js_split_nonempty)
qed

lemma length_js_split: "length (js_split sep s) = Suc (length (filter (\<lambda>c. c = sep) s))"
  by (induction s) (auto split: list.splits simp: js_split_nonempty)

lemma str_simps:
  "str ''*'' = [0x2A]" "str ''..'' = [0x2E, 0x2E]" "str ''.'' = [0x2E]"
  "str '','' = [0x2C]" "str ''0'' = [0x30]" "str ''1'' = [0x31]"
  by (simp_all add: str_def)

lemma is_letter_alnum: "is_letter c \<Longrightarrow> is_alnum c"
  by (simp add: is_alnum_def)

lemma domain_char_plain:
  assumes "is_alnum c \<or> c = 0x2D \<or> c = 0x2E"
  shows "c \<le> 0x7F" and "c \<noteq> 0x2A" and "c \<noteq> 0x2C"
    and "\<not> in_class False [(0x00, 0x1F), (0x7F, 0x9F), (0x2000, 0x200F), (0x2028, 0x202F), (0x205F, 0x206F)] c"
    and "\<not> js_whitespace c"
  using assms unfolding is_alnum_def is_letter_def in_class_def js_whitespace_def
  by (auto; unat_arith)+

lemma in_split_part:
  "c \<in> set s \<Longrightarrow> c = sep \<or> (\<exists>p\<in>set (js_split sep s). c \<in> set p)"
proof (induction s)
  case Nil then show ?case by simp
next
  case (Cons d ds)
  then show ?case
    by (cases "js_split sep ds") (auto simp: js_split_nonempty)
qed

lemma regex_chars:
  assumes "matches True DOMAIN_REGEX s" and "c \<in> set s"
  shows "is_alnum c \<or> c = 0x2D \<or> c = 0x2E"
proof (cases "c = 0x2E")
  case True then show ?thesis by simp
next
  case False
  with in_split_part[OF assms(2), of "0x2E"] obtain p where p: "p \<in> set (js_split 0x2E s)" "c \<in> set p"
    by blast
  from assms(1) have parts: "list_all label_ok (butlast (js_split 0x2E s))" "tld_ok (last (js_split 0x2E s))"
    unfolding DOMAIN_REGEX_split by auto
  from p(1) have "p \<in> set (butlast (js_split 0x2E s)) \<or> p = last (js_split 0x2E s)"
    by (cases "js_split 0x2E s" rule: rev_cases) (auto simp: js_split_nonempty)
  then show ?thesis
  proof
    assume "p \<in> set (butlast (js_split 0x2E s))"
    with parts(1) have "label_ok p" by (simp add: list_all_iff)
    with p(2) show ?thesis by (auto simp: label_ok_def hyphenated_label_def list_all_iff)
  next
    assume "p = last (js_split 0x2E s)"
    with parts(2) p(2) have "is_letter c" by (auto simp: tld_ok_def list_all_iff)
    then show ?thesis by (simp add: is_letter_alnum)
  qed
qed

lemma label_ok_nonempty: "label_ok l \<Longrightarrow> l \<noteq> []"
  by (simp add: label_ok_def hyphenated_label_def)

lemma regex_passes_other_checks:
  assumes m: "matches True DOMAIN_REGEX d"
  shows "d \<noteq> []"
    and "\<not> test_anywhere False DANGEROUS_CHARS_REGEX d"
    and "\<not> js_includes d (str ''*'')"
    and "test_anchored False ASCII_REGEX d"
    and "\<not> js_includes d (str ''..'')"
    and "\<not> startsWith d (str ''.'')"
    and "\<not> endsWith d (str ''.'')"
proof -
  from m have len: "2 \<le> length (js_split 0x2E d)"
    and labels: "list_all label_ok (butlast (js_split 0x2E d))"
    and tld: "tld_ok (last (js_split 0x2E d))"
    unfolding DOMAIN_REGEX_split by auto
  show "d \<noteq> []" using len by auto
  show "\<not> test_anywhere False DANGEROUS_CHARS_REGEX d"
    unfolding DANGEROUS_CHARS_REGEX_def test_anywhere_Cls
    using regex_chars[OF m] domain_char_plain(4) by blast
  show "\<not> js_includes d (str ''*'')"
    unfolding str_simps js_includes_single
    using regex_chars[OF m] domain_char_plain(2) by blast
  show "test_anchored False ASCII_REGEX d"
    unfolding test_ascii using regex_chars[OF m] domain_char_plain(1) by blast
  show "\<not> js_includes d (str ''..'')"
  proof
    assume "js_includes d (str ''..'')"
    then obtain p q where "d = p @ 0x2E # 0x2E # q"
      unfolding str_simps js_includes_iff by auto
    then have "js_split 0x2E d = js_split 0x2E p @ [] # js_split 0x2E q"
      by (simp add: js_split_sep_append)
    then have "[] \<in> set (butlast (js_split 0x2E d))"
      by (simp add: butlast_append js_split_nonempty)
    with labels have "label_ok []" by (simp add: list_all_iff)
    then show False by (simp add: label_ok_def hyphenated_label_def)
  qed
  show "\<not> startsWith d (str ''.'')"
  proof
    assume "startsWith d (str ''.'')"
    then obtain r where "d = 0x2E # r"
      unfolding str_simps startsWith_iff by auto
    then have "[] \<in> set (butlast (js_split 0x2E d))"
      by (simp add: js_split_nonempty)
    with labels have "label_ok []" by (simp add: list_all_iff)
    then show False by (simp add: label_ok_def hyphenated_label_def)
  qed
  show "\<not> endsWith d (str ''.'')"
  proof
    assume "endsWith d (str ''.'')"
    then obtain r where "d = r @ [0x2E]"
      unfolding str_simps endsWith_iff by auto
    then have "last (js_split 0x2E d) = []"
      by (simp add: js_split_sep_append)
    with tld show False by (simp add: tld_ok_def)
  qed
qed

lemma valid_invalid: "\<not> valid (invalid e)"
  by (simp add: invalid_def)

lemma validate_valid_iff:
  "valid (validateDomainName d) \<longleftrightarrow>
     length d \<le> 253 \<and> matches True DOMAIN_REGEX d \<and> (\<forall>l\<in>set (js_split 0x2E d). length l \<le> 63)"
proof (cases "matches True DOMAIN_REGEX d")
  case True
  note ok = regex_passes_other_checks[OF True]
  have long: "list_ex (\<lambda>label. 63 < length label) (js_split 0x2E d)
      \<longleftrightarrow> \<not> (\<forall>l\<in>set (js_split 0x2E d). length l \<le> 63)"
    by (auto simp: list_ex_iff not_le)
  show ?thesis
    using True ok unfolding validateDomainName_def long
    by (simp add: valid_invalid test_anchored_def)
next
  case False
  then show ?thesis
    by (auto simp: validateDomainName_def valid_invalid test_anchored_def)
qed

lemma regex_inner_labels_short:
  assumes "matches True DOMAIN_REGEX d" and "l \<in> set (butlast (js_split 0x2E d))"
  shows "length l \<le> 63"
  using assms unfolding DOMAIN_REGEX_split by (auto simp: list_all_iff label_ok_def)

lemma regex_long_tld:
  assumes "2 \<le> n"
  shows "matches True DOMAIN_REGEX (str ''a.'' @ replicate n 0x61)"
proof -
  have s: "js_split 0x2E (str ''a.'' @ replicate n 0x61) = [[0x61], replicate n 0x61]"
    using js_split_append[of "0x2E" "[0x61]" "replicate n 0x61"]
    by (simp add: str_def js_split_nosep)
  have "label_ok [0x61]"
    by (simp add: label_ok_def hyphenated_label_def is_alnum_def is_letter_def)
  moreover have "tld_ok (replicate n 0x61)"
    using assms by (simp add: tld_ok_def list_all_iff is_letter_def)
  ultimately show ?thesis
    unfolding DOMAIN_REGEX_split s by simp
qed

lemma validate_after_regex:
  assumes "matches True DOMAIN_REGEX d" and "length d \<le> 253"
  shows "validateDomainName d =
           (if \<exists>l\<in>set (js_split 0x2E d). 63 < length l then invalid LabelTooLong
            else \<lparr>valid = True, verror = None\<rparr>)"
  using assms regex_passes_other_checks[OF assms(1)]
  unfolding validateDomainName_def list_ex_iff
  by (simp add: test_anchored_def)

text \<open>
  C10. The verdict of \<open>validateDomainName\<close> is that of three conditions: the length is at
  most 253, \<open>DOMAIN_REGEX\<close> matches, and every label between dots has at most 63
  characters. A string that \<open>DOMAIN_REGEX\<close> matches is not empty, has no dangerous
  character, no \<open>*\<close>, only ASCII, no two dots in a row and no dot at an end, and all its
  labels but the last have at most 63 characters. The last label is not bounded by the
  pattern: \<open>a.\<close> followed by \<open>n\<close> letters matches for every \<open>n\<close> from 2 on, and from 64
  letters on (within the total length) the label check rejects it.
\<close>

theorem validateDomainName_three_conditions:
  "(valid (validateDomainName d) \<longleftrightarrow>
      length d \<le> 253 \<and> test_anchored True DOMAIN_REGEX d
      \<and> (\<forall>l\<in>set (js_split 0x2E d). length l \<le> 63))
   \<and> (test_anchored True DOMAIN_REGEX d \<longrightarrow>
        d \<noteq> []
        \<and> \<not> test_anywhere False DANGEROUS_CHARS_REGEX d
        \<and> \<not> js_includes d (str ''*'')
        \<and> test_anchored False ASCII_REGEX d
        \<and> \<not> js_includes d (str ''..'')
        \<and> \<not> startsWith d (str ''.'')
        \<and> \<not> endsWith d (str ''.'')
        \<and> (\<forall>l\<in>set (butlast (js_split 0x2E d)). length l \<le> 63))
   \<and> (\<forall>n\<ge>2. test_anchored True DOMAIN_REGEX (str ''a.'' @ replicate n 0x61)
          \<and> (63 < n \<and> n \<le> 251 \<longrightarrow>
               validateDomainName (str ''a.'' @ replicate n 0x61) = invalid LabelTooLong))"
proof (intro conjI impI allI ballI)
  show "valid (validateDomainName d) \<longleftrightarrow>
      length d \<le> 253 \<and> test_anchored True DOMAIN_REGEX d
      \<and> (\<forall>l\<in>set (js_split 0x2E d). length l \<le> 63)"
    by (simp add: validate_valid_iff test_anchored_def)
next
  fix n :: nat
  assume n: "2 \<le> n"
  show "test_anchored True DOMAIN_REGEX (str ''a.'' @ replicate n 0x61)"
    using regex_long_tld[OF n] by (simp add: test_anchored_def)
next
  fix n :: nat
  assume n: "2 \<le> n" "63 < n \<and> n \<le> 251"
  have len: "length (str ''a.'' @ replicate n 0x61) \<le> 253"
    using n by (simp add: str_def)
  have "replicate n 0x61 \<in> set (js_split 0x2E (str ''a.'' @ replicate n 0x61))"
    using js_split_append[of "0x2E" "[0x61]" "replicate n 0x61"]
    by (simp add: str_def js_split_nosep)
  with n have "\<exists>l\<in>set (js_split 0x2E (str ''a.'' @ replicate n 0x61)). 63 < length l"
    by (intro bexI[of _ "replicate n 0x61"]) simp_all
  then show "validateDomainName (str ''a.'' @ replicate n 0x61) = invalid LabelTooLong"
    using validate_after_regex[OF regex_long_tld[OF n(1)] len] by simp
qed (use regex_passes_other_checks[of d] regex_inner_labels_short[of d] in
      \<open>simp_all add: test_anchored_def\<close>)

theorem validateDomainName_three_conditions_witness:
  "test_anchored True DOMAIN_REGEX (str ''a.com'')
   \<and> length (str ''a.com'') \<le> 253
   \<and> list_all (\<lambda>l. length l \<le> 63) (js_split 0x2E (str ''a.com''))
   \<and> valid (validateDomainName (str ''a.com''))
   \<and> \<not> js_includes (str ''a.com'') (str ''..'')
   \<and> (2::nat) \<le> 64 \<and> (63::nat) < 64 \<and> (64::nat) \<le> 251
   \<and> validateDomainName (str ''a.'' @ replicate 64 0x61) = invalid LabelTooLong"
proof -
  have r: "test_anchored True DOMAIN_REGEX (str ''a.com'')" by code_simp
  have l: "length (str ''a.com'') \<le> 253" by (simp add: str_def)
  have s: "\<forall>l\<in>set (js_split 0x2E (str ''a.com'')). length l \<le> 63" by (simp add: str_def)
  note t = validateDomainName_three_conditions[of "str ''a.com''"]
  from t r l s have v: "valid (validateDomainName (str ''a.com''))" by blast
  from t r have i: "\<not> js_includes (str ''a.com'') (str ''..'')" by blast
  from t have "validateDomainName (str ''a.'' @ replicate 64 0x61) = invalid LabelTooLong"
    by simp
  with r l s v i show ?thesis by (simp add: list_all_iff)
qed

lemma tld_ok_hyphenated: "tld_ok t \<Longrightarrow> hyphenated_label t"
proof -
  assume t: "tld_ok t"
  then have ne: "t \<noteq> []" by (auto simp: tld_ok_def)
  from t have all: "\<forall>c\<in>set t. is_letter c" by (simp add: tld_ok_def list_all_iff)
  have "hd t \<in> set t" "last t \<in> set t" using ne by simp_all
  with all have "is_alnum (hd t)" "is_alnum (last t)" by (auto intro: is_letter_alnum)
  then have "hd t \<noteq> 0x2D" "last t \<noteq> 0x2D" by (auto dest: is_alnum_not_hyphen)
  with ne all show ?thesis
    by (auto simp: hyphenated_label_def list_all_iff intro: is_letter_alnum)
qed

lemma valid_iff_rules:
  "valid (validateDomainName d) \<longleftrightarrow> label_tld_rules d \<and> 2 \<le> length (js_split 0x2E d)"
proof -
  obtain ps p where ps: "js_split 0x2E d = ps @ [p]"
    using js_split_nonempty[of "0x2E" d] by (cases "js_split 0x2E d" rule: rev_cases) auto
  show ?thesis
    unfolding validate_valid_iff DOMAIN_REGEX_split label_tld_rules_def ps
    by (auto simp: list_all_iff label_ok_def dest: tld_ok_hyphenated)
qed

lemma dangerous_class:
  "in_class False [(0x00, 0x1F), (0x7F, 0x9F), (0x2000, 0x200F), (0x2028, 0x202F), (0x205F, 0x206F)] c
     \<longleftrightarrow> dangerous_char c"
  by (auto simp: in_class_def dangerous_char_def)

lemma validate_first_failure:
  "verror (validateDomainName d) = first_failure d"
  unfolding validateDomainName_def first_failure_def domain_checks_def
  by (simp add: invalid_def test_anywhere_Cls DANGEROUS_CHARS_REGEX_def dangerous_class
      list_ex_iff str_simps js_includes_single test_ascii not_le)

text \<open>
  C7, as stated, fails on a name of a single label: \<open>com\<close> satisfies the label and TLD
  rules (one label, of three letters), and \<open>validateDomainName\<close> rejects it, because
  \<open>DOMAIN_REGEX\<close> asks for at least one label followed by a dot before the final label.
\<close>

theorem single_label_rejected:
  "label_tld_rules (str ''com'') \<and> \<not> valid (validateDomainName (str ''com''))"
  by code_simp

text \<open>
  C7, amended. \<open>validateDomainName\<close> returns valid exactly for the strings of two or
  more dot-separated labels that satisfy the label and TLD rules (each label alphanumeric,
  possibly hyphenated, not starting or ending with a hyphen, the final label of at least
  two letters, in either case, the total length at most 253 and each label at most 63).
  It returns invalid for every input that contains a \<open>*\<close>, two dots in a row, a dot at
  an end, a label of more than 63 characters or a code unit outside ASCII. The checks run
  in the fixed order of \<open>domain_checks\<close> and the error returned is that of the first
  check that fails.
\<close>

theorem validateDomainName_label_tld_rules:
  "(valid (validateDomainName d) \<longleftrightarrow> label_tld_rules d \<and> 2 \<le> length (js_split 0x2E d))
   \<and> (0x2A \<in> set d \<or> js_includes d [0x2E, 0x2E] \<or> startsWith d [0x2E] \<or> endsWith d [0x2E]
        \<or> list_ex (\<lambda>l. 63 < length l) (js_split 0x2E d) \<or> list_ex (\<lambda>c. 0x7F < c) d
        \<longrightarrow> \<not> valid (validateDomainName d))
   \<and> verror (validateDomainName d) = first_failure d
   \<and> (valid (validateDomainName d) \<longleftrightarrow> first_failure d = None)"
proof (intro conjI impI)
  show "valid (validateDomainName d) \<longleftrightarrow> label_tld_rules d \<and> 2 \<le> length (js_split 0x2E d)"
    by (rule valid_iff_rules)
next
  assume bad: "0x2A \<in> set d \<or> js_includes d [0x2E, 0x2E] \<or> startsWith d [0x2E]
      \<or> endsWith d [0x2E] \<or> list_ex (\<lambda>l. 63 < length l) (js_split 0x2E d)
      \<or> list_ex (\<lambda>c. 0x7F < c) d"
  show "\<not> valid (validateDomainName d)"
  proof
    assume "valid (validateDomainName d)"
    then have m: "matches True DOMAIN_REGEX d"
      and short: "\<forall>l\<in>set (js_split 0x2E d). length l \<le> 63"
      unfolding validate_valid_iff by auto
    from regex_passes_other_checks[OF m] short bad show False
      by (auto simp: str_simps js_includes_single test_ascii list_ex_iff)
  qed
next
  show "verror (validateDomainName d) = first_failure d"
    by (rule validate_first_failure)
next
  have "valid (validateDomainName d) \<longleftrightarrow> verror (validateDomainName d) = None"
    by (simp add: validateDomainName_def invalid_def)
  then show "valid (validateDomainName d) \<longleftrightarrow> first_failure d = None"
    by (simp add: validate_first_failure)
qed

theorem validateDomainName_label_tld_rules_witness:
  "label_tld_rules (str ''a.com'') \<and> 2 \<le> length (js_split 0x2E (str ''a.com''))
   \<and> valid (validateDomainName (str ''a.com''))
   \<and> js_includes (str ''a..com'') [0x2E, 0x2E]
   \<and> \<not> valid (validateDomainName (str ''a..com''))"
proof -
  have r: "label_tld_rules (str ''a.com'')" by code_simp
  have l: "2 \<le> length (js_split 0x2E (str ''a.com''))" by (simp add: str_def)
  have i: "js_includes (str ''a..com'') [0x2E, 0x2E]" by (simp add: str_def)
  from r l validateDomainName_label_tld_rules[of "str ''a.com''"]
  have v: "valid (validateDomainName (str ''a.com''))" by blast
  from i validateDomainName_label_tld_rules[of "str ''a..com''"]
  have n: "\<not> valid (validateDomainName (str ''a..com''))" by blast
  from r l v i n show ?thesis by blast
qed

lemma parseInt_flags: "parseInt (str ''0'') = JNum 0" "parseInt (str ''1'') = JNum 1"
  by code_simp+

lemma js_split_three:
  assumes "sep \<notin> set a" "sep \<notin> set b" "sep \<notin> set c"
  shows "js_split sep (a @ [sep] @ b @ [sep] @ c) = [a, b, c]"
  using assms by (simp add: js_split_append js_split_nosep)

lemma parts_head: "map trim (js_split sep line) ! 0 = trim (hd (js_split sep line))"
  using js_split_nonempty[of sep line] by (cases "js_split sep line") simp_all

lemma parse_domain_failure:
  assumes "\<not> valid (validateDomainName (trim (hd (js_split 0x2C line))))"
  shows "parseWhitelistLine line i =
           failure (LineError (i + 1)
             (DomainReason (verror (validateDomainName (trim (hd (js_split 0x2C line)))))) line)"
  using assms unfolding parseWhitelistLine_def Let_def parts_head by simp

lemma parse_domain_only:
  assumes "0x2C \<notin> set line" "valid (validateDomainName (trim line))"
  shows "parseWhitelistLine line i =
           \<lparr>success = True,
            entry = Some \<lparr>domain = trim line, keepCookies = JNum 1, keepCache = JNum 1\<rparr>,
            error = None\<rparr>"
  using assms unfolding parseWhitelistLine_def Let_def
  by (simp add: js_split_nosep)

lemma parse_three_parts:
  assumes "0x2C \<notin> set a" "0x2C \<notin> set b" "0x2C \<notin> set c"
    and "valid (validateDomainName (trim a))"
  shows "parseWhitelistLine (a @ [0x2C] @ b @ [0x2C] @ c) i =
           (if (trim b = str ''0'' \<or> trim b = str ''1'') \<and> (trim c = str ''0'' \<or> trim c = str ''1'')
            then \<lparr>success = True,
                  entry = Some \<lparr>domain = trim a,
                                 keepCookies = JNum (if trim b = str ''1'' then 1 else 0),
                                 keepCache = JNum (if trim c = str ''1'' then 1 else 0)\<rparr>,
                  error = None\<rparr>
            else failure (LineError (i + 1) FlagReason (a @ [0x2C] @ b @ [0x2C] @ c)))"
proof -
  have ne: "str ''0'' \<noteq> str ''1''" by (simp add: str_def)
  show ?thesis
    using assms(4) ne unfolding parseWhitelistLine_def Let_def js_split_three[OF assms(1-3)]
    by (auto simp: isValidFlag_def parseInt_flags)
qed

lemma parse_other_count:
  assumes "valid (validateDomainName (trim (hd (js_split 0x2C line))))"
    and "length (filter (\<lambda>c. c = 0x2C) line) \<noteq> 0"
    and "length (filter (\<lambda>c. c = 0x2C) line) \<noteq> 2"
  shows "parseWhitelistLine line i = failure (LineError (i + 1) FormatReason line)"
  using assms unfolding parseWhitelistLine_def Let_def parts_head
  by (simp add: length_js_split)

lemma example_line: "str ''example.com,2,1'' = str ''example.com'' @ [0x2C] @ str ''2'' @ [0x2C] @ str ''1''"
  by (simp add: str_def)

lemma example_parts:
  "0x2C \<notin> set (str ''example.com'')" "0x2C \<notin> set (str ''2'')" "0x2C \<notin> set (str ''1'')"
  "trim (str ''2'') = str ''2''" "trim (str ''1'') = str ''1''" "str ''2'' \<noteq> str ''0''"
  "str ''2'' \<noteq> str ''1''"
  by code_simp+

lemma example_domain_valid: "valid (validateDomainName (trim (str ''example.com'')))"
  by code_simp

text \<open>
  C6. \<open>parseWhitelistLine\<close> splits the line at commas and trims the parts. When the first
  part is not a valid domain the result is the failure with the 1-based line number, the
  error of the domain and the line, whatever follows the domain. With a valid domain: a
  line without a comma gives the entry with both flags 1; a line of three parts gives the
  entry with the two flags when both are the string \<open>0\<close> or \<open>1\<close>, and otherwise the flag
  failure with the line number and the line; a line with one comma or with three or more
  gives the format failure with the line number and the line. \<open>example.com,2,1\<close> at index
  0 fails with line 1 and the flag message.
\<close>

theorem parseWhitelistLine_cases:
  "(\<not> valid (validateDomainName (trim (hd (js_split 0x2C line)))) \<longrightarrow>
      parseWhitelistLine line i =
        failure (LineError (i + 1)
          (DomainReason (verror (validateDomainName (trim (hd (js_split 0x2C line)))))) line))
   \<and> (0x2C \<notin> set line \<and> valid (validateDomainName (trim line)) \<longrightarrow>
        parseWhitelistLine line i =
          \<lparr>success = True,
           entry = Some \<lparr>domain = trim line, keepCookies = JNum 1, keepCache = JNum 1\<rparr>,
           error = None\<rparr>)
   \<and> (0x2C \<notin> set a \<and> 0x2C \<notin> set b \<and> 0x2C \<notin> set c \<and> valid (validateDomainName (trim a)) \<longrightarrow>
        parseWhitelistLine (a @ [0x2C] @ b @ [0x2C] @ c) i =
          (if (trim b = str ''0'' \<or> trim b = str ''1'') \<and> (trim c = str ''0'' \<or> trim c = str ''1'')
           then \<lparr>success = True,
                 entry = Some \<lparr>domain = trim a,
                                keepCookies = JNum (if trim b = str ''1'' then 1 else 0),
                                keepCache = JNum (if trim c = str ''1'' then 1 else 0)\<rparr>,
                 error = None\<rparr>
           else failure (LineError (i + 1) FlagReason (a @ [0x2C] @ b @ [0x2C] @ c))))
   \<and> (valid (validateDomainName (trim (hd (js_split 0x2C line))))
        \<and> length (filter (\<lambda>c. c = 0x2C) line) \<noteq> 0
        \<and> length (filter (\<lambda>c. c = 0x2C) line) \<noteq> 2 \<longrightarrow>
        parseWhitelistLine line i = failure (LineError (i + 1) FormatReason line))
   \<and> parseWhitelistLine (str ''example.com,2,1'') 0 =
        failure (LineError 1 FlagReason (str ''example.com,2,1''))"
proof (intro conjI impI)
  show "parseWhitelistLine (str ''example.com,2,1'') 0 =
        failure (LineError 1 FlagReason (str ''example.com,2,1''))"
    unfolding example_line
    using parse_three_parts[OF example_parts(1-3) example_domain_valid, of 0]
    by (simp add: example_parts)
next
  assume "\<not> valid (validateDomainName (trim (hd (js_split 0x2C line))))"
  then show "parseWhitelistLine line i =
        failure (LineError (i + 1)
          (DomainReason (verror (validateDomainName (trim (hd (js_split 0x2C line)))))) line)"
    by (rule parse_domain_failure)
next
  assume "0x2C \<notin> set line \<and> valid (validateDomainName (trim line))"
  then show "parseWhitelistLine line i =
          \<lparr>success = True,
           entry = Some \<lparr>domain = trim line, keepCookies = JNum 1, keepCache = JNum 1\<rparr>,
           error = None\<rparr>"
    using parse_domain_only[of line i] by blast
next
  assume "0x2C \<notin> set a \<and> 0x2C \<notin> set b \<and> 0x2C \<notin> set c \<and> valid (validateDomainName (trim a))"
  then show "parseWhitelistLine (a @ [0x2C] @ b @ [0x2C] @ c) i =
          (if (trim b = str ''0'' \<or> trim b = str ''1'') \<and> (trim c = str ''0'' \<or> trim c = str ''1'')
           then \<lparr>success = True,
                 entry = Some \<lparr>domain = trim a,
                                keepCookies = JNum (if trim b = str ''1'' then 1 else 0),
                                keepCache = JNum (if trim c = str ''1'' then 1 else 0)\<rparr>,
                 error = None\<rparr>
           else failure (LineError (i + 1) FlagReason (a @ [0x2C] @ b @ [0x2C] @ c)))"
    using parse_three_parts[of a b c i] by blast
next
  assume "valid (validateDomainName (trim (hd (js_split 0x2C line))))
        \<and> length (filter (\<lambda>c. c = 0x2C) line) \<noteq> 0
        \<and> length (filter (\<lambda>c. c = 0x2C) line) \<noteq> 2"
  then show "parseWhitelistLine line i = failure (LineError (i + 1) FormatReason line)"
    using parse_other_count[of line i] by blast
qed

theorem parseWhitelistLine_cases_witness:
  "parseWhitelistLine (str ''-x.com,7,7'') 4 =
     failure (LineError 5 (DomainReason (Some BadFormat)) (str ''-x.com,7,7''))
   \<and> parseWhitelistLine (str '' example.com '') 0 =
       \<lparr>success = True,
        entry = Some \<lparr>domain = str ''example.com'', keepCookies = JNum 1, keepCache = JNum 1\<rparr>,
        error = None\<rparr>
   \<and> parseWhitelistLine (str ''example.com'' @ [0x2C] @ str '' 1'' @ [0x2C] @ str ''0 '') 2 =
       \<lparr>success = True,
        entry = Some \<lparr>domain = str ''example.com'', keepCookies = JNum 1, keepCache = JNum 0\<rparr>,
        error = None\<rparr>
   \<and> parseWhitelistLine (str ''example.com,1'') 0 =
       failure (LineError 1 FormatReason (str ''example.com,1''))"
proof -
  have h1: "\<not> valid (validateDomainName (trim (hd (js_split 0x2C (str ''-x.com,7,7'')))))"
    and e1: "verror (validateDomainName (trim (hd (js_split 0x2C (str ''-x.com,7,7''))))) = Some BadFormat"
    by code_simp+
  have h2: "0x2C \<notin> set (str '' example.com '')"
    "valid (validateDomainName (trim (str '' example.com '')))"
    and e2: "trim (str '' example.com '') = str ''example.com''"
    by code_simp+
  have h3: "0x2C \<notin> set (str ''example.com'')" "0x2C \<notin> set (str '' 1'')"
    "0x2C \<notin> set (str ''0 '')" "valid (validateDomainName (trim (str ''example.com'')))"
    and e3: "trim (str ''example.com'') = str ''example.com''" "trim (str '' 1'') = str ''1''"
    "trim (str ''0 '') = str ''0''" "str ''0'' \<noteq> str ''1''"
    by code_simp+
  have h4: "valid (validateDomainName (trim (hd (js_split 0x2C (str ''example.com,1'')))))"
    "length (filter (\<lambda>c. c = 0x2C) (str ''example.com,1'')) \<noteq> 0"
    "length (filter (\<lambda>c. c = 0x2C) (str ''example.com,1'')) \<noteq> 2"
    by code_simp+
  from h1 e1 parseWhitelistLine_cases[of "str ''-x.com,7,7''" 4]
  have c1: "parseWhitelistLine (str ''-x.com,7,7'') 4 =
     failure (LineError 5 (DomainReason (Some BadFormat)) (str ''-x.com,7,7''))"
    by simp
  from h2 e2 parseWhitelistLine_cases[of "str '' example.com ''" 0]
  have c2: "parseWhitelistLine (str '' example.com '') 0 =
       \<lparr>success = True,
        entry = Some \<lparr>domain = str ''example.com'', keepCookies = JNum 1, keepCache = JNum 1\<rparr>,
        error = None\<rparr>"
    by simp
  from h3 e3 parseWhitelistLine_cases[where a = "str ''example.com''" and b = "str '' 1''"
      and c = "str ''0 ''" and i = 2]
  have c3: "parseWhitelistLine (str ''example.com'' @ [0x2C] @ str '' 1'' @ [0x2C] @ str ''0 '') 2 =
       \<lparr>success = True,
        entry = Some \<lparr>domain = str ''example.com'', keepCookies = JNum 1, keepCache = JNum 0\<rparr>,
        error = None\<rparr>"
    by simp
  from h4 parseWhitelistLine_cases[of "str ''example.com,1''" 0]
  have c4: "parseWhitelistLine (str ''example.com,1'') 0 =
       failure (LineError 1 FormatReason (str ''example.com,1''))"
    by simp
  from c1 c2 c3 c4 show ?thesis by blast
qed

end
